theory Spec2Isabelle
  imports Complex_Main
begin

section \<open>Floating-point values and errors\<close>

text \<open>
  The arrays of the program hold floating-point numbers of one format. A value is a
  finite number, one of the two infinities or \<open>NaN\<close>. Every arithmetic operation
  computes the exact result of its finite operands and hands it to the rounding of the
  format, which is a parameter \<open>rnd\<close> of the model: \<open>rnd\<close> maps a real to the value the
  format stores for it, an infinity where the result overflows and zero where it
  underflows. The special values are produced and propagated as IEEE arithmetic does.
  Every zero divisor of the program is a square, a length or a Python integer, hence the
  positive zero; the sign of zero is therefore not tracked.
\<close>

datatype jfloat = Fin real | PInf | NInf | NaN

text \<open>
  The errors a call can end with. \<open>ShapeMismatch\<close> stands for the exception the array
  library raises for operands that cannot be broadcast or contracted, \<open>IndexError\<close> for
  indexing into an axis of size zero. \<open>InvalidConfiguration\<close> is the error class the
  specification names for a chain count below two.
\<close>

datatype error = ShapeMismatch | IndexError | InvalidConfiguration

fun jneg :: "jfloat \<Rightarrow> jfloat" where
  "jneg (Fin x) = Fin (- x)"
| "jneg PInf = NInf"
| "jneg NInf = PInf"
| "jneg NaN = NaN"

fun jadd :: "(real \<Rightarrow> jfloat) \<Rightarrow> jfloat \<Rightarrow> jfloat \<Rightarrow> jfloat" where
  "jadd rnd (Fin x) (Fin y) = rnd (x + y)"
| "jadd rnd NaN _ = NaN"
| "jadd rnd _ NaN = NaN"
| "jadd rnd PInf NInf = NaN"
| "jadd rnd NInf PInf = NaN"
| "jadd rnd PInf _ = PInf"
| "jadd rnd _ PInf = PInf"
| "jadd rnd NInf _ = NInf"
| "jadd rnd _ NInf = NInf"

definition jsub :: "(real \<Rightarrow> jfloat) \<Rightarrow> jfloat \<Rightarrow> jfloat \<Rightarrow> jfloat" where
  "jsub rnd a b = jadd rnd a (jneg b)"

fun jmul :: "(real \<Rightarrow> jfloat) \<Rightarrow> jfloat \<Rightarrow> jfloat \<Rightarrow> jfloat" where
  "jmul rnd (Fin x) (Fin y) = rnd (x * y)"
| "jmul rnd NaN _ = NaN"
| "jmul rnd _ NaN = NaN"
| "jmul rnd (Fin x) b = (if x = 0 then NaN else if 0 < x then b else jneg b)"
| "jmul rnd a (Fin y) = (if y = 0 then NaN else if 0 < y then a else jneg a)"
| "jmul rnd PInf b = b"
| "jmul rnd NInf b = jneg b"

definition jsquare :: "(real \<Rightarrow> jfloat) \<Rightarrow> jfloat \<Rightarrow> jfloat" where
  "jsquare rnd a = jmul rnd a a"

fun jdiv :: "(real \<Rightarrow> jfloat) \<Rightarrow> jfloat \<Rightarrow> jfloat \<Rightarrow> jfloat" where
  "jdiv rnd (Fin x) (Fin y) =
     (if y = 0 then (if x = 0 then NaN else if 0 < x then PInf else NInf)
      else rnd (x / y))"
| "jdiv rnd NaN _ = NaN"
| "jdiv rnd _ NaN = NaN"
| "jdiv rnd (Fin x) _ = Fin 0"
| "jdiv rnd a (Fin y) = (if y < 0 then jneg a else a)"
| "jdiv rnd _ _ = NaN"

text \<open>The exponential is taken to be correctly rounded, like the four operations.\<close>

fun jexp :: "(real \<Rightarrow> jfloat) \<Rightarrow> jfloat \<Rightarrow> jfloat" where
  "jexp rnd (Fin x) = rnd (exp x)"
| "jexp rnd PInf = PInf"
| "jexp rnd NInf = Fin 0"
| "jexp rnd NaN = NaN"

text \<open>The comparisons; each of them is false when an operand is \<open>NaN\<close>.\<close>

fun jless :: "jfloat \<Rightarrow> jfloat \<Rightarrow> bool" where
  "jless (Fin x) (Fin y) = (x < y)"
| "jless NaN _ = False"
| "jless _ NaN = False"
| "jless NInf b = (b \<noteq> NInf)"
| "jless a PInf = (a \<noteq> PInf)"
| "jless _ _ = False"

fun jle :: "jfloat \<Rightarrow> jfloat \<Rightarrow> bool" where
  "jle (Fin x) (Fin y) = (x \<le> y)"
| "jle NaN _ = False"
| "jle _ NaN = False"
| "jle NInf _ = True"
| "jle _ PInf = True"
| "jle _ _ = False"

definition jeq :: "jfloat \<Rightarrow> jfloat \<Rightarrow> bool" where
  "jeq a b \<longleftrightarrow> a \<noteq> NaN \<and> a = b"

text \<open>
  What the proofs use of a rounding: it keeps 0 and 1 and it is monotone, so it never
  returns \<open>NaN\<close>. Rounding to nearest in a binary format has these properties, and so has
  exact arithmetic, the rounding \<open>Fin\<close>.
\<close>

definition rounding :: "(real \<Rightarrow> jfloat) \<Rightarrow> bool" where
  "rounding rnd \<longleftrightarrow> rnd 0 = Fin 0 \<and> rnd 1 = Fin 1 \<and> (\<forall>x y. x \<le> y \<longrightarrow> jle (rnd x) (rnd y))"

text \<open>
  A rounding with the range of the 32-bit binary format and no rounding error inside the
  range: a result of magnitude \<open>2^128 - 2^103\<close> or more becomes an infinity (the largest
  finite number of the format is \<open>2^128 - 2^104\<close>), a result of magnitude \<open>2^-150\<close> or less
  becomes zero (the smallest positive number is \<open>2^-149\<close>), and every other result is
  kept. On operands and results that the format represents exactly, powers of two for
  instance, it agrees with the arithmetic of the format.
\<close>

definition binary32_range :: "real \<Rightarrow> jfloat" where
  "binary32_range x =
     (if 2 ^ 128 - 2 ^ 103 \<le> x then PInf
      else if x \<le> - (2 ^ 128 - 2 ^ 103) then NInf
      else if \<bar>x\<bar> \<le> 1 / 2 ^ 150 then Fin 0
      else Fin x)"

text \<open>\<open>jnp.sum\<close> and \<open>jnp.mean\<close> of a one-dimensional array: the mean of the empty
  array is \<open>0 / 0\<close>, that is \<open>NaN\<close>. The entries are added in their order; the order,
  which the library does not fix, matters for the rounding only.\<close>

definition jnp_sum :: "(real \<Rightarrow> jfloat) \<Rightarrow> jfloat list \<Rightarrow> jfloat" where
  "jnp_sum rnd xs = foldl (jadd rnd) (Fin 0) xs"

definition jnp_mean :: "(real \<Rightarrow> jfloat) \<Rightarrow> jfloat list \<Rightarrow> jfloat" where
  "jnp_mean rnd xs = jdiv rnd (jnp_sum rnd xs) (rnd (real (length xs)))"

text \<open>\<open>jnp.dot\<close> of two one-dimensional arrays contracts them and refuses operands of
  different lengths.\<close>

definition jnp_dot :: "(real \<Rightarrow> jfloat) \<Rightarrow> jfloat list \<Rightarrow> jfloat list \<Rightarrow> error + jfloat" where
  "jnp_dot rnd xs ys =
     (if length xs = length ys then Inr (jnp_sum rnd (map2 (jmul rnd) xs ys))
      else Inl ShapeMismatch)"

text \<open>The element-wise operations broadcast two one-dimensional operands: equal lengths
  pair up, an operand of length one is repeated, anything else is refused.\<close>

definition broadcast2 :: "'a list \<Rightarrow> 'b list \<Rightarrow> error + ('a \<times> 'b) list" where
  "broadcast2 xs ys =
     (if length xs = length ys then Inr (zip xs ys)
      else if length xs = 1 then Inr (map (\<lambda>y. (hd xs, y)) ys)
      else if length ys = 1 then Inr (map (\<lambda>x. (x, hd ys)) xs)
      else Inl ShapeMismatch)"

section \<open>Metropolis acceptance (mcmc/metropolis.py)\<close>

text \<open>
  One entry of \<open>metropolis_symmetric_acceptance\<close>. The raw branch squares both
  amplitudes, divides, and replaces the quotient by one where the old probability is
  smaller than the new one or is zero; the quotient itself is computed first, so it may
  be infinite or \<open>NaN\<close> before the mask is applied. The logarithmic branch doubles both
  amplitudes and exponentiates the difference unless the new one is larger.
\<close>

definition metropolis_symmetric_acceptance_entry ::
  "(real \<Rightarrow> jfloat) \<Rightarrow> bool \<Rightarrow> jfloat \<Rightarrow> jfloat \<Rightarrow> jfloat" where
  "metropolis_symmetric_acceptance_entry rnd logabs amplitude proposed_amplitude =
     (if \<not> logabs then
        (let prob_old = jsquare rnd amplitude;
             prob_new = jsquare rnd proposed_amplitude;
             ratio = jdiv rnd prob_new prob_old
         in if jless prob_old prob_new \<or> jeq prob_old (Fin 0) then Fin 1 else ratio)
      else
        (let log_prob_old = jmul rnd (Fin 2) amplitude;
             log_prob_new = jmul rnd (Fin 2) proposed_amplitude
         in if jless log_prob_old log_prob_new then Fin 1
            else jexp rnd (jsub rnd log_prob_new log_prob_old)))"

definition metropolis_symmetric_acceptance ::
  "(real \<Rightarrow> jfloat) \<Rightarrow> jfloat list \<Rightarrow> jfloat list \<Rightarrow> bool \<Rightarrow> error + jfloat list" where
  "metropolis_symmetric_acceptance rnd amplitude proposed_amplitude logabs =
     (case broadcast2 amplitude proposed_amplitude of
        Inl e \<Rightarrow> Inl e
      | Inr pairs \<Rightarrow>
          Inr (map (\<lambda>(a, b). metropolis_symmetric_acceptance_entry rnd logabs a b) pairs))"

text \<open>
  The one way an entry of finite amplitudes comes out as \<open>NaN\<close>: in the raw branch both
  squares overflow, in the logarithmic branch both doubles overflow to the same infinity.
\<close>

definition both_overflow :: "(real \<Rightarrow> jfloat) \<Rightarrow> bool \<Rightarrow> jfloat \<Rightarrow> jfloat \<Rightarrow> bool" where
  "both_overflow rnd logabs amplitude proposed_amplitude =
     (if logabs then
        jmul rnd (Fin 2) amplitude = jmul rnd (Fin 2) proposed_amplitude \<and>
        (jmul rnd (Fin 2) amplitude = PInf \<or> jmul rnd (Fin 2) amplitude = NInf)
      else jsquare rnd amplitude = PInf \<and> jsquare rnd proposed_amplitude = PInf)"

text \<open>
  Modelled from the spec: the class \<open>PositionAmplitudeData\<close> of \<open>vmcnet.updates.data\<close>,
  which is not among the sources. The specification describes the walker state as the
  positions of all chains together with the cached amplitude of each chain, one number
  per chain. The positions are opaque here.
\<close>

record 'x PositionAmplitudeData =
  position :: 'x
  amplitude :: "jfloat list"

text \<open>\<open>make_position_amplitude_metropolis_symmetric_acceptance logabs\<close> is the closure
  \<open>acceptance_fn\<close>: it drops \<open>params\<close> and reads the two amplitude fields.\<close>

definition make_position_amplitude_metropolis_symmetric_acceptance ::
  "(real \<Rightarrow> jfloat) \<Rightarrow> bool \<Rightarrow> 'p \<Rightarrow> 'x PositionAmplitudeData \<Rightarrow> 'x PositionAmplitudeData \<Rightarrow>
   error + jfloat list" where
  "make_position_amplitude_metropolis_symmetric_acceptance rnd logabs params data proposed_data =
     metropolis_symmetric_acceptance rnd (amplitude data) (amplitude proposed_data) logabs"

section \<open>The Metropolis step (mcmc/metropolis.py)\<close>

text \<open>
  The random number library is a parameter of the model: \<open>random_split\<close> splits a key in
  two, and \<open>draw key j\<close> is the \<open>j\<close>-th number of the uniform sample taken with \<open>key\<close>, so
  that the sample has the requested shape by construction.
\<close>

definition random_uniform :: "('k \<Rightarrow> nat \<Rightarrow> real) \<Rightarrow> 'k \<Rightarrow> nat \<Rightarrow> real list" where
  "random_uniform draw key n = map (draw key) [0..<n]"

text \<open>
  \<open>make_metropolis_step\<close> applied to the three strategies is the closure
  \<open>metrop_step_fn\<close>, which takes \<open>data\<close>, \<open>params\<close> and \<open>key\<close>. An exception of a strategy
  ends the step.
\<close>

definition make_metropolis_step ::
  "(real \<Rightarrow> jfloat) \<Rightarrow> ('k \<Rightarrow> 'k \<times> 'k) \<Rightarrow> ('k \<Rightarrow> nat \<Rightarrow> real) \<Rightarrow>
   ('p \<Rightarrow> 'd \<Rightarrow> 'k \<Rightarrow> error + ('d \<times> 'k)) \<Rightarrow>
   ('p \<Rightarrow> 'd \<Rightarrow> 'd \<Rightarrow> error + jfloat list) \<Rightarrow>
   ('d \<Rightarrow> 'd \<Rightarrow> bool list \<Rightarrow> error + 'd) \<Rightarrow>
   'd \<Rightarrow> 'p \<Rightarrow> 'k \<Rightarrow> error + (jfloat \<times> 'd \<times> 'k)" where
  "make_metropolis_step rnd random_split draw proposal_fn acceptance_fn update_data_fn
       data params key =
     (let (key1, subkey) = random_split key in
      case proposal_fn params data key1 of
        Inl e \<Rightarrow> Inl e
      | Inr (proposed_data, key2) \<Rightarrow>
          (case acceptance_fn params data proposed_data of
             Inl e \<Rightarrow> Inl e
           | Inr accept_prob \<Rightarrow>
               (let move_mask =
                      map2 (\<lambda>u p. jless (Fin u) p)
                        (random_uniform draw subkey (length accept_prob)) accept_prob
                in case update_data_fn data proposed_data move_mask of
                     Inl e \<Rightarrow> Inl e
                   | Inr new_data \<Rightarrow> Inr (jnp_mean rnd accept_prob, new_data, key2))))"

section \<open>The energy estimator (physics/energy.py)\<close>

text \<open>
  \<open>compute_energy_data\<close> with the variables of its closure as leading arguments.
  \<open>utils.distribute.pmean_if_pmap\<close> is a parameter; on a single worker it is the identity.
  \<open>nchains\<close> is a Python integer. The function has no check on \<open>nchains\<close>: the last
  division is a floating-point division of an array by the integer \<open>nchains - 1\<close>.
\<close>

definition compute_energy_data ::
  "(real \<Rightarrow> jfloat) \<Rightarrow> (jfloat \<Rightarrow> jfloat) \<Rightarrow> ('p \<Rightarrow> 'x \<Rightarrow> error + real list) \<Rightarrow> int \<Rightarrow>
   'p \<Rightarrow> 'x \<Rightarrow> error + (jfloat \<times> jfloat \<times> real list)" where
  "compute_energy_data rnd pmean_if_pmap local_energy_fn nchains params positions =
     (case local_energy_fn params positions of
        Inl e \<Rightarrow> Inl e
      | Inr local_energies \<Rightarrow>
          (let energy = pmean_if_pmap (jnp_mean rnd (map Fin local_energies));
               variance =
                 jdiv rnd
                   (jmul rnd
                      (pmean_if_pmap
                         (jnp_mean rnd
                            (map (\<lambda>l. jsquare rnd (jsub rnd (Fin l) energy)) local_energies)))
                      (rnd (of_int nchains)))
                   (rnd (of_int (nchains - 1)));
               aux_data = (variance, local_energies)
           in Inr (energy, aux_data)))"

text \<open>
  The differentiation rule attached to \<open>compute_energy_data\<close>. The forward-mode derivative
  of the injected \<open>log_psi_apply\<close> is a parameter: \<open>log_psi_apply_jvp primals tangents\<close> is
  the pair that \<open>jax.jvp\<close> returns, the log amplitudes and their tangents.
\<close>

definition compute_energy_data_jvp ::
  "(real \<Rightarrow> jfloat) \<Rightarrow> (jfloat \<Rightarrow> jfloat) \<Rightarrow>
   ('p \<times> 'x \<Rightarrow> 'tp \<times> 'tx \<Rightarrow> real list \<times> real list) \<Rightarrow>
   ('p \<Rightarrow> 'x \<Rightarrow> error + real list) \<Rightarrow> int \<Rightarrow> 'p \<times> 'x \<Rightarrow> 'tp \<times> 'tx \<Rightarrow>
   error + ((jfloat \<times> jfloat \<times> real list) \<times> (jfloat \<times> jfloat \<times> real list))" where
  "compute_energy_data_jvp rnd pmean_if_pmap log_psi_apply_jvp local_energy_fn nchains
       primals tangents =
     (let (params, positions) = primals in
      case compute_energy_data rnd pmean_if_pmap local_energy_fn nchains params positions of
        Inl e \<Rightarrow> Inl e
      | Inr (energy, aux_data) \<Rightarrow>
          (let (_, local_energies) = aux_data;
               (_, psi_tangents) = log_psi_apply_jvp primals tangents;
               primals_out = (energy, aux_data)
           in case jnp_dot rnd (map Fin psi_tangents)
                     (map (\<lambda>l. jsub rnd (Fin l) energy) local_energies) of
                Inl e \<Rightarrow> Inl e
              | Inr d \<Rightarrow> Inr (primals_out, (jmul rnd (Fin 2) d, aux_data))))"

section \<open>The Laplacian evaluator (physics/energy.py)\<close>

text \<open>
  An array of any shape: its shape and its entries in row-major order. Reshaping to
  \<open>(-1,)\<close> keeps the entries; reshaping back attaches the shape again.
\<close>

record ndarray =
  shape :: "nat list"
  elems :: "real list"

definition reshape :: "real list \<Rightarrow> nat list \<Rightarrow> ndarray" where
  "reshape flat new_shape = \<lparr>shape = new_shape, elems = flat\<rparr>"

text \<open>Indexing with an integer clamps the index to the axis and refuses an axis of size
  zero.\<close>

definition jnp_index :: "'a list \<Rightarrow> nat \<Rightarrow> error + 'a" where
  "jnp_index xs i = (if xs = [] then Inl IndexError else Inr (xs ! min i (length xs - 1)))"

definition eye :: "nat \<Rightarrow> real list list" where
  "eye n = map (\<lambda>i. map (\<lambda>j. if i = j then 1 else 0) [0..<n]) [0..<n]"

text \<open>
  \<open>lax.scan\<close> with no scanned input. It first stages the step: the step is run once on
  the initial carry, whatever the length is, and an exception of that run ends the scan,
  also when the length is zero. The exceptions of the model depend on the shapes of the
  arrays only, which are those of the staged run. Then the step is applied \<open>length\<close>
  times to the carry.
\<close>

fun scan_loop :: "('c \<Rightarrow> error + 'c) \<Rightarrow> 'c \<Rightarrow> nat \<Rightarrow> error + 'c" where
  "scan_loop f carry 0 = Inr carry"
| "scan_loop f carry (Suc k) = (case f carry of Inl e \<Rightarrow> Inl e | Inr c \<Rightarrow> scan_loop f c k)"

definition scan :: "('c \<Rightarrow> error + 'c) \<Rightarrow> 'c \<Rightarrow> nat \<Rightarrow> error + 'c" where
  "scan f init n = (case f init of Inl e \<Rightarrow> Inl e | Inr staged \<Rightarrow> scan_loop f init n)"

text \<open>
  The only use the evaluator makes of \<open>grad_log_psi\<close> is under \<open>jax.jvp\<close>, so the model
  takes the forward-mode derivative as its parameter: \<open>grad_log_psi_jvp params x v\<close> is
  the pair of \<open>grad_log_psi params x\<close> and its directional derivative at \<open>x\<close> along \<open>v\<close>.
  The derivative of the flattened function reshapes the point and the direction alike.
\<close>

definition flattened_grad_log_psi_of_flat_x_jvp ::
  "('p \<Rightarrow> ndarray \<Rightarrow> ndarray \<Rightarrow> ndarray \<times> ndarray) \<Rightarrow> 'p \<Rightarrow> nat list \<Rightarrow>
   real list \<Rightarrow> real list \<Rightarrow> real list \<times> real list" where
  "flattened_grad_log_psi_of_flat_x_jvp grad_log_psi_jvp params x_shape flat_x_in flat_v =
     (let (grad_log_psi_out, tangent_out) =
            grad_log_psi_jvp params (reshape flat_x_in x_shape) (reshape flat_v x_shape)
      in (elems grad_log_psi_out, elems tangent_out))"

definition step_fn ::
  "(real \<Rightarrow> jfloat) \<Rightarrow> ('p \<Rightarrow> ndarray \<Rightarrow> ndarray \<Rightarrow> ndarray \<times> ndarray) \<Rightarrow> 'p \<Rightarrow> nat list \<Rightarrow>
   real list \<Rightarrow> real list list \<Rightarrow> nat \<times> jfloat \<Rightarrow> error + (nat \<times> jfloat)" where
  "step_fn rnd grad_log_psi_jvp params x_shape flat_x identity_mat carry =
     (let i = fst carry in
      case jnp_index identity_mat i of
        Inl e \<Rightarrow> Inl e
      | Inr row \<Rightarrow>
          (let (primals, tangents) =
                 flattened_grad_log_psi_of_flat_x_jvp grad_log_psi_jvp params x_shape flat_x row
           in case jnp_index primals i of
                Inl e \<Rightarrow> Inl e
              | Inr p \<Rightarrow>
                  (case jnp_index tangents i of
                     Inl e \<Rightarrow> Inl e
                   | Inr t \<Rightarrow>
                       Inr (i + 1,
                            jadd rnd (jadd rnd (snd carry) (jsquare rnd (Fin p))) (Fin t)))))"

definition laplacian_psi_over_psi ::
  "(real \<Rightarrow> jfloat) \<Rightarrow> ('p \<Rightarrow> ndarray \<Rightarrow> ndarray \<Rightarrow> ndarray \<times> ndarray) \<Rightarrow> 'p \<Rightarrow> ndarray \<Rightarrow>
   error + jfloat" where
  "laplacian_psi_over_psi rnd grad_log_psi_jvp params x =
     (let x_shape = shape x;
          flat_x = elems x;
          n = length flat_x;
          identity_mat = eye n
      in case scan (step_fn rnd grad_log_psi_jvp params x_shape flat_x identity_mat)
                (0, Fin 0) n of
           Inl e \<Rightarrow> Inl e
         | Inr out \<Rightarrow> Inr (snd out))"

text \<open>
  What it means for \<open>f_jvp\<close> to be the forward-mode derivative of \<open>f\<close> in its array
  argument: it returns the value of \<open>f\<close>, and a tangent of the same size whose \<open>i\<close>-th
  entry is the derivative at \<open>t = 0\<close> of the \<open>i\<close>-th entry of \<open>f\<close> along the line
  \<open>x + t * v\<close>.
\<close>

definition along :: "ndarray \<Rightarrow> ndarray \<Rightarrow> real \<Rightarrow> ndarray" where
  "along x v t = x\<lparr>elems := map2 (\<lambda>a b. a + t * b) (elems x) (elems v)\<rparr>"

definition is_jvp_of ::
  "('p \<Rightarrow> ndarray \<Rightarrow> ndarray) \<Rightarrow> ('p \<Rightarrow> ndarray \<Rightarrow> ndarray \<Rightarrow> ndarray \<times> ndarray) \<Rightarrow> bool" where
  "is_jvp_of f f_jvp \<longleftrightarrow>
     (\<forall>params x v. length (elems v) = length (elems x) \<longrightarrow>
        fst (f_jvp params x v) = f params x \<and>
        length (elems (snd (f_jvp params x v))) = length (elems (f params x)) \<and>
        (\<forall>i < length (elems (f params x)).
           ((\<lambda>t. elems (f params (along x v t)) ! i)
              has_real_derivative elems (snd (f_jvp params x v)) ! i) (at 0)))"

text \<open>The gradient of \<open>log |psi|\<close> for \<open>psi(x) = exp (- |x|\<^sup>2 / 2)\<close>.\<close>

definition gaussian_grad_log_psi :: "'p \<Rightarrow> ndarray \<Rightarrow> ndarray" where
  "gaussian_grad_log_psi params x = x\<lparr>elems := map uminus (elems x)\<rparr>"

text \<open>
  The evaluation at the entries \<open>xs\<close>, started with the accumulator \<open>acc\<close>, rounds
  nothing: each square, each sum with the accumulator and each sum with the tangent
  \<open>- 1\<close> is stored as it is.
\<close>

fun exact_run :: "(real \<Rightarrow> jfloat) \<Rightarrow> real \<Rightarrow> real list \<Rightarrow> bool" where
  "exact_run rnd acc [] = True"
| "exact_run rnd acc (a # as) =
     (rnd (a * a) = Fin (a * a) \<and>
      rnd (acc + a * a) = Fin (acc + a * a) \<and>
      rnd (acc + a * a + - 1) = Fin (acc + a * a - 1) \<and>
      exact_run rnd (acc + a * a - 1) as)"

section \<open>Properties of the roundings\<close>

lemma rounding_Fin: "rounding Fin"
  by (simp add: rounding_def)

lemma rounding_binary32_range: "rounding binary32_range"
  unfolding rounding_def
proof (intro conjI allI impI)
  show "binary32_range 0 = Fin 0" by (simp add: binary32_range_def)
  show "binary32_range 1 = Fin 1" by (simp add: binary32_range_def)
next
  fix x y :: real
  assume "x \<le> y"
  then show "jle (binary32_range x) (binary32_range y)"
    by (auto simp: binary32_range_def abs_if split: if_splits)
qed

lemma rounding_mono: "rounding rnd \<Longrightarrow> x \<le> y \<Longrightarrow> jle (rnd x) (rnd y)"
  by (simp add: rounding_def)

lemma rounding_nonneg:
  assumes "rounding rnd" and "0 \<le> x"
  shows "rnd x = PInf \<or> (\<exists>v. rnd x = Fin v \<and> 0 \<le> v)"
proof -
  have "jle (Fin 0) (rnd x)"
    using rounding_mono [OF assms] assms(1) by (simp add: rounding_def)
  then show ?thesis by (cases "rnd x") simp_all
qed

lemma rounding_nonpos:
  assumes "rounding rnd" and "x \<le> 0"
  shows "rnd x = NInf \<or> (\<exists>v. rnd x = Fin v \<and> v \<le> 0)"
proof -
  have "jle (rnd x) (Fin 0)"
    using rounding_mono [OF assms] assms(1) by (simp add: rounding_def)
  then show ?thesis by (cases "rnd x") simp_all
qed

lemma rounding_unit:
  assumes "rounding rnd" and "0 \<le> x" and "x \<le> 1"
  shows "\<exists>v. rnd x = Fin v \<and> 0 \<le> v \<and> v \<le> 1"
proof -
  have "jle (Fin 0) (rnd x)" and "jle (rnd x) (Fin 1)"
    using rounding_mono [OF assms(1,2)] rounding_mono [OF assms(1,3)] assms(1)
    by (simp_all add: rounding_def)
  then show ?thesis by (cases "rnd x") simp_all
qed

lemma rounding_not_NaN: "rounding rnd \<Longrightarrow> rnd x \<noteq> NaN"
  using rounding_mono [of rnd x x] by (cases "rnd x") auto

section \<open>Properties of the acceptance functions\<close>

lemma raw_entry_cases:
  assumes r: "rounding rnd"
  shows "metropolis_symmetric_acceptance_entry rnd False (Fin a) (Fin b) =
    (let prob_old = jsquare rnd (Fin a); prob_new = jsquare rnd (Fin b)
     in if prob_old = PInf \<and> prob_new = PInf then NaN
        else if prob_old = Fin 0 \<or> jle prob_old prob_new then Fin 1
        else jdiv rnd prob_new prob_old)"
proof -
  have one: "rnd 1 = Fin 1" using r by (simp add: rounding_def)
  from rounding_nonneg [OF r, of "a * a"] rounding_nonneg [OF r, of "b * b"]
  show ?thesis
    by (auto simp: metropolis_symmetric_acceptance_entry_def jsquare_def jeq_def Let_def one)
qed

lemma raw_entry_unit:
  assumes r: "rounding rnd" and ok: "\<not> both_overflow rnd False (Fin a) (Fin b)"
  shows "\<exists>v. metropolis_symmetric_acceptance_entry rnd False (Fin a) (Fin b) = Fin v \<and>
             0 \<le> v \<and> v \<le> 1"
proof -
  consider (oo) "rnd (a * a) = PInf" "rnd (b * b) = PInf"
    | (of) q where "rnd (a * a) = PInf" "rnd (b * b) = Fin q"
    | (fo) p where "rnd (a * a) = Fin p" "rnd (b * b) = PInf"
    | (ff) p q where "rnd (a * a) = Fin p" "0 \<le> p" "rnd (b * b) = Fin q" "0 \<le> q"
    using rounding_nonneg [OF r, of "a * a"] rounding_nonneg [OF r, of "b * b"] by auto
  then show ?thesis
  proof cases
    case oo
    with ok show ?thesis by (simp add: both_overflow_def jsquare_def)
  next
    case of
    then show ?thesis
      by (simp add: metropolis_symmetric_acceptance_entry_def jsquare_def jeq_def)
  next
    case fo
    then show ?thesis
      by (simp add: metropolis_symmetric_acceptance_entry_def jsquare_def jeq_def)
  next
    case ff
    show ?thesis
    proof (cases "p < q \<or> p = 0")
      case True
      with ff show ?thesis
        by (auto simp: metropolis_symmetric_acceptance_entry_def jsquare_def jeq_def)
    next
      case False
      with ff have "0 \<le> q / p" and "q / p \<le> 1" by (auto simp: divide_le_eq_1)
      from rounding_unit [OF r this] False ff show ?thesis
        by (auto simp: metropolis_symmetric_acceptance_entry_def jsquare_def jeq_def)
    qed
  qed
qed

lemma log_entry_unit:
  assumes r: "rounding rnd" and ok: "\<not> both_overflow rnd True (Fin a) (Fin b)"
  shows "\<exists>v. metropolis_symmetric_acceptance_entry rnd True (Fin a) (Fin b) = Fin v \<and>
             0 \<le> v \<and> v \<le> 1"
proof (cases "jless (rnd (2 * a)) (rnd (2 * b))")
  case True
  then show ?thesis
    by (simp add: metropolis_symmetric_acceptance_entry_def)
next
  case False
  have zero: "rnd 0 = Fin 0" using r by (simp add: rounding_def)
  let ?d = "jsub rnd (rnd (2 * b)) (rnd (2 * a))"
  have d: "?d = NInf \<or> (\<exists>v. ?d = Fin v \<and> v \<le> 0)"
  proof (cases "rnd (2 * a)")
    case (Fin lo)
    show ?thesis
    proof (cases "rnd (2 * b)")
      case (Fin ln)
      with \<open>rnd (2 * a) = Fin lo\<close> False have "ln - lo \<le> 0" by simp
      from rounding_nonpos [OF r this] Fin \<open>rnd (2 * a) = Fin lo\<close> show ?thesis
        by (simp add: jsub_def)
    qed (use Fin False rounding_not_NaN [OF r, of "2 * b"] in \<open>simp_all add: jsub_def\<close>)
  next
    case PInf
    with ok show ?thesis
      using rounding_not_NaN [OF r, of "2 * b"]
      by (cases "rnd (2 * b)") (simp_all add: jsub_def both_overflow_def)
  next
    case NInf
    with ok False show ?thesis
      using rounding_not_NaN [OF r, of "2 * b"]
      by (cases "rnd (2 * b)") (simp_all add: jsub_def both_overflow_def)
  next
    case NaN
    with rounding_not_NaN [OF r, of "2 * a"] show ?thesis by simp
  qed
  have "\<exists>v. jexp rnd ?d = Fin v \<and> 0 \<le> v \<and> v \<le> 1"
  proof -
    from d show ?thesis
    proof
      assume "?d = NInf"
      then show ?thesis by simp
    next
      assume "\<exists>v. ?d = Fin v \<and> v \<le> 0"
      then obtain v where v: "?d = Fin v" "v \<le> 0" by blast
      then have "0 \<le> exp v" "exp v \<le> 1" by simp_all
      from rounding_unit [OF r this] v show ?thesis by simp
    qed
  qed
  with False show ?thesis
    by (simp add: metropolis_symmetric_acceptance_entry_def)
qed

lemma entry_unit_interval:
  assumes "rounding rnd" and "\<not> both_overflow rnd logabs (Fin a) (Fin b)"
  shows "\<exists>v. metropolis_symmetric_acceptance_entry rnd logabs (Fin a) (Fin b) = Fin v \<and>
             0 \<le> v \<and> v \<le> 1"
  using assms by (cases logabs) (simp_all add: raw_entry_unit log_entry_unit)

lemma entry_NaN:
  assumes r: "rounding rnd" and bad: "both_overflow rnd logabs (Fin a) (Fin b)"
  shows "metropolis_symmetric_acceptance_entry rnd logabs (Fin a) (Fin b) = NaN"
proof (cases logabs)
  case True
  with bad show ?thesis
    by (auto simp: both_overflow_def metropolis_symmetric_acceptance_entry_def jsub_def)
next
  case False
  with bad show ?thesis
    by (auto simp: both_overflow_def metropolis_symmetric_acceptance_entry_def jeq_def)
qed

lemma broadcast2_map:
  "broadcast2 (map f xs) (map g ys) = map_sum id (map (\<lambda>(x, y). (f x, g y))) (broadcast2 xs ys)"
  by (cases xs; cases ys) (auto simp: broadcast2_def zip_map_map hd_map)

lemma acceptance_of_finite:
  assumes "broadcast2 xs ys = Inr pairs"
  shows "metropolis_symmetric_acceptance rnd (map Fin xs) (map Fin ys) logabs =
         Inr (map (\<lambda>(a, b). metropolis_symmetric_acceptance_entry rnd logabs (Fin a) (Fin b)) pairs)"
  using assms
  by (simp add: metropolis_symmetric_acceptance_def broadcast2_map case_prod_unfold comp_def)

text \<open>
  Claim C2, amended: for arrays of finite amplitudes that can be broadcast, either value
  of \<open>logabs\<close> and every rounding, \<open>metropolis_symmetric_acceptance\<close> returns one entry per
  pair, and the entry is a finite number between 0 and 1, also where the old probability
  is zero, unless both squares of the pair overflow (raw branch) or both doubles overflow
  to the same infinity (logarithmic branch); in that case the entry is \<open>NaN\<close>.
\<close>

theorem acceptance_finite_unit_interval:
  assumes "rounding rnd" and "broadcast2 xs ys = Inr pairs"
  shows "\<exists>rs. metropolis_symmetric_acceptance rnd (map Fin xs) (map Fin ys) logabs = Inr rs \<and>
           length rs = length pairs \<and>
           (\<forall>i<length pairs.
              if both_overflow rnd logabs (Fin (fst (pairs ! i))) (Fin (snd (pairs ! i)))
              then rs ! i = NaN
              else (\<exists>v. rs ! i = Fin v \<and> 0 \<le> v \<and> v \<le> 1))"
proof (intro exI conjI allI impI)
  let ?rs = "map (\<lambda>(a, b). metropolis_symmetric_acceptance_entry rnd logabs (Fin a) (Fin b)) pairs"
  show "metropolis_symmetric_acceptance rnd (map Fin xs) (map Fin ys) logabs = Inr ?rs"
    by (rule acceptance_of_finite [OF assms(2)])
  show "length ?rs = length pairs"
    by simp
  fix i
  assume i: "i < length pairs"
  then have entry: "?rs ! i = metropolis_symmetric_acceptance_entry rnd logabs
      (Fin (fst (pairs ! i))) (Fin (snd (pairs ! i)))"
    by (simp add: case_prod_unfold)
  show "if both_overflow rnd logabs (Fin (fst (pairs ! i))) (Fin (snd (pairs ! i)))
        then ?rs ! i = NaN else (\<exists>v. ?rs ! i = Fin v \<and> 0 \<le> v \<and> v \<le> 1)"
    unfolding entry
    using entry_NaN [OF assms(1)] entry_unit_interval [OF assms(1)] by simp
qed

text \<open>An instance in the range of the 32-bit format, with a zero old probability in the
  first entry.\<close>

theorem acceptance_finite_unit_interval_witness:
  "metropolis_symmetric_acceptance binary32_range (map Fin [0, 2]) (map Fin [3, 1]) False =
     Inr [Fin 1, Fin (1 / 4)] \<and>
   \<not> both_overflow binary32_range False (Fin 0) (Fin 3) \<and>
   \<not> both_overflow binary32_range False (Fin 2) (Fin 1)"
proof -
  have pairs: "broadcast2 [0, 2] [3, 1 :: real] = Inr [(0, 3), (2, 1)]"
    by (simp add: broadcast2_def)
  have run: "metropolis_symmetric_acceptance binary32_range (map Fin [0, 2]) (map Fin [3, 1]) False =
     Inr [Fin 1, Fin (1 / 4)]"
    by (simp add: metropolis_symmetric_acceptance_def broadcast2_def
        metropolis_symmetric_acceptance_entry_def jsquare_def jeq_def binary32_range_def)
  have "\<not> both_overflow binary32_range False (Fin 0) (Fin 3)"
    and "\<not> both_overflow binary32_range False (Fin 2) (Fin 1)"
    by (simp_all add: both_overflow_def jsquare_def binary32_range_def)
  with acceptance_finite_unit_interval [OF rounding_binary32_range pairs, of False] run
  show ?thesis by simp
qed

text \<open>
  Claim C2 says that finite inputs give finite outputs between 0 and 1. In the range of
  the 32-bit format the finite amplitudes \<open>2^70\<close> and \<open>2^70\<close> have infinite squares and
  the raw branch returns \<open>NaN\<close>; the finite log amplitudes \<open>1.5 * 2^127\<close> and
  \<open>1.5 * 2^127\<close> have infinite doubles and the logarithmic branch returns \<open>NaN\<close>.
\<close>

theorem both_squares_overflow_counterexample:
  "metropolis_symmetric_acceptance binary32_range [Fin (2 ^ 70)] [Fin (2 ^ 70)] False = Inr [NaN] \<and>
   metropolis_symmetric_acceptance binary32_range [Fin (3 * 2 ^ 126)] [Fin (3 * 2 ^ 126)] True =
     Inr [NaN]"
  by (simp add: metropolis_symmetric_acceptance_def broadcast2_def
      metropolis_symmetric_acceptance_entry_def jsquare_def jsub_def jeq_def binary32_range_def)

text \<open>
  Claim C5, amended: in the raw branch, with \<open>probOld\<close> and \<open>probNew\<close> the computed squares
  of a pair of finite amplitudes, the result is \<open>NaN\<close> when both squares have overflowed;
  otherwise it is 1 when \<open>probOld\<close> is zero or \<open>probNew \<ge> probOld\<close>, and the computed
  quotient \<open>probNew / probOld\<close> in the remaining case.
\<close>

theorem raw_branch_cases:
  assumes "rounding rnd"
  shows "metropolis_symmetric_acceptance rnd (map Fin xs) (map Fin ys) False =
   map_sum id
     (map (\<lambda>(a, b).
        let prob_old = jsquare rnd (Fin a); prob_new = jsquare rnd (Fin b)
        in if prob_old = PInf \<and> prob_new = PInf then NaN
           else if prob_old = Fin 0 \<or> jle prob_old prob_new then Fin 1
           else jdiv rnd prob_new prob_old))
     (broadcast2 xs ys)"
proof (cases "broadcast2 xs ys")
  case (Inl e)
  then show ?thesis
    by (simp add: metropolis_symmetric_acceptance_def broadcast2_map)
next
  case (Inr pairs)
  then show ?thesis
    by (simp add: acceptance_of_finite raw_entry_cases [OF assms])
qed

text \<open>An instance with the three cases of the result in turn: a zero old probability, a
  proper quotient and equal probabilities.\<close>

theorem raw_branch_cases_witness:
  "metropolis_symmetric_acceptance binary32_range (map Fin [0, 2, 1]) (map Fin [3, 1, 1]) False =
     Inr [Fin 1, Fin (1 / 4), Fin 1]"
  using raw_branch_cases [OF rounding_binary32_range, of "[0, 2, 1]" "[3, 1, 1]"]
  by (simp add: broadcast2_def jsquare_def binary32_range_def)

text \<open>
  Claim C5 says that the result is 1 whenever \<open>probNew \<ge> probOld\<close>. For the amplitudes
  \<open>2^70\<close> and \<open>2^70\<close> in the range of the 32-bit format both squares are infinite, so
  \<open>probNew \<ge> probOld\<close> holds, and the result is \<open>NaN\<close>: the mask of the code is the strict
  comparison, and the quotient of the two infinities is \<open>NaN\<close>.
\<close>

theorem equal_overflowing_squares_counterexample:
  "jle (jsquare binary32_range (Fin (2 ^ 70))) (jsquare binary32_range (Fin (2 ^ 70))) \<and>
   metropolis_symmetric_acceptance binary32_range [Fin (2 ^ 70)] [Fin (2 ^ 70)] False = Inr [NaN]"
  by (simp add: metropolis_symmetric_acceptance_def broadcast2_def
      metropolis_symmetric_acceptance_entry_def jsquare_def jeq_def binary32_range_def)

lemma acceptance_singletons:
  "metropolis_symmetric_acceptance rnd [x] [y] logabs =
   Inr [metropolis_symmetric_acceptance_entry rnd logabs x y]"
  by (simp add: metropolis_symmetric_acceptance_def broadcast2_def)

lemma jexp_bounds:
  assumes "rounding rnd"
  shows "jexp rnd (Fin a) = PInf \<or> (\<exists>p. jexp rnd (Fin a) = Fin p \<and> 0 \<le> p)"
  using rounding_nonneg [OF assms, of "exp a"] by simp

lemma jsquare_mono:
  assumes r: "rounding rnd" and "0 \<le> p" and "p \<le> q"
  shows "jle (rnd (p * p)) (rnd (q * q))"
  using assms by (intro rounding_mono mult_mono) auto

lemma raw_entry_one:
  assumes r: "rounding rnd" and le: "a \<le> b"
    and ok: "\<not> both_overflow rnd False (jexp rnd (Fin a)) (jexp rnd (Fin b))"
  shows "metropolis_symmetric_acceptance_entry rnd False (jexp rnd (Fin a)) (jexp rnd (Fin b)) = Fin 1"
proof -
  have one: "rnd 1 = Fin 1" using r by (simp add: rounding_def)
  have AB: "jle (rnd (exp a)) (rnd (exp b))"
    using le by (intro rounding_mono [OF r]) simp
  from jexp_bounds [OF r, of a] show ?thesis
  proof
    assume A: "jexp rnd (Fin a) = PInf"
    with AB have "jexp rnd (Fin b) = PInf"
      by (cases "rnd (exp b)") simp_all
    with A ok show ?thesis
      by (simp add: both_overflow_def jsquare_def)
  next
    assume "\<exists>p. jexp rnd (Fin a) = Fin p \<and> 0 \<le> p"
    then obtain p where A: "rnd (exp a) = Fin p" and p: "0 \<le> p" by auto
    from rounding_nonneg [OF r, of "p * p"] p
    consider (inf) "rnd (p * p) = PInf" | (fin) po where "rnd (p * p) = Fin po" "0 \<le> po"
      by auto
    then show ?thesis
    proof cases
      case inf
      show ?thesis
      proof (cases "rnd (exp b)")
        case (Fin q)
        with AB A have "p \<le> q" by simp
        from jsquare_mono [OF r p this] inf have "rnd (q * q) = PInf"
          by (cases "rnd (q * q)") simp_all
        with inf A Fin ok show ?thesis
          by (simp add: both_overflow_def jsquare_def)
      next
        case PInf
        with inf A ok show ?thesis
          by (simp add: both_overflow_def jsquare_def)
      qed (use AB A in simp_all)
    next
      case fin
      show ?thesis
      proof (cases "rnd (exp b)")
        case (Fin q)
        with AB A have "p \<le> q" by simp
        from jsquare_mono [OF r p this] fin(1)
        consider "rnd (q * q) = PInf" | pn where "rnd (q * q) = Fin pn" "po \<le> pn"
          by (cases "rnd (q * q)") simp_all
        then show ?thesis
          using A Fin fin one
          by cases
            (auto simp: metropolis_symmetric_acceptance_entry_def jsquare_def jeq_def less_le)
      next
        case PInf
        with A fin show ?thesis
          by (simp add: metropolis_symmetric_acceptance_entry_def jsquare_def jeq_def)
      qed (use AB A in simp_all)
    qed
  qed
qed

lemma log_entry_one:
  assumes r: "rounding rnd" and le: "a \<le> b"
    and ok: "\<not> both_overflow rnd True (Fin a) (Fin b)"
  shows "metropolis_symmetric_acceptance_entry rnd True (Fin a) (Fin b) = Fin 1"
proof (cases "jless (rnd (2 * a)) (rnd (2 * b))")
  case True
  then show ?thesis
    by (simp add: metropolis_symmetric_acceptance_entry_def)
next
  case False
  have zero: "rnd 0 = Fin 0" and one: "rnd 1 = Fin 1"
    using r by (simp_all add: rounding_def)
  have "jle (rnd (2 * a)) (rnd (2 * b))"
    using le by (intro rounding_mono [OF r]) simp
  with False have same: "rnd (2 * a) = rnd (2 * b)"
    by (cases "rnd (2 * a)"; cases "rnd (2 * b)") simp_all
  have "rnd (2 * a) \<noteq> PInf \<and> rnd (2 * a) \<noteq> NInf"
    using ok same by (auto simp: both_overflow_def)
  then obtain v where "rnd (2 * a) = Fin v"
    using rounding_not_NaN [OF r, of "2 * a"] by (cases "rnd (2 * a)") auto
  with same [symmetric] show ?thesis
    by (simp add: metropolis_symmetric_acceptance_entry_def jsub_def zero one)
qed

text \<open>
  Claim C3, amended: for \<open>a \<le> b\<close>, that is when the proposed amplitude is not smaller
  than the current one, both representations return 1, for every rounding, provided the
  squares of \<open>exp a\<close> and \<open>exp b\<close> do not both overflow and the doubles of \<open>a\<close> and \<open>b\<close> do
  not both overflow to the same infinity.
\<close>

theorem proposed_not_smaller_accepts:
  assumes "rounding rnd" and "a \<le> b"
    and "\<not> both_overflow rnd False (jexp rnd (Fin a)) (jexp rnd (Fin b))"
    and "\<not> both_overflow rnd True (Fin a) (Fin b)"
  shows "metropolis_symmetric_acceptance rnd [jexp rnd (Fin a)] [jexp rnd (Fin b)] False =
           Inr [Fin 1] \<and>
         metropolis_symmetric_acceptance rnd [Fin a] [Fin b] True = Inr [Fin 1]"
  using raw_entry_one [OF assms(1,2,3)] log_entry_one [OF assms(1,2,4)]
  by (simp add: acceptance_singletons)

text \<open>An instance of the amended claim in the range of the 32-bit format.\<close>

theorem proposed_not_smaller_accepts_witness:
  "(0::real) \<le> 1 \<and>
   metropolis_symmetric_acceptance binary32_range
     [jexp binary32_range (Fin 0)] [jexp binary32_range (Fin 1)] False = Inr [Fin 1] \<and>
   metropolis_symmetric_acceptance binary32_range [Fin 0] [Fin 1] True = Inr [Fin 1]"
proof -
  have "\<not> both_overflow binary32_range False (jexp binary32_range (Fin 0)) (jexp binary32_range (Fin 1))"
    by (simp add: both_overflow_def jsquare_def binary32_range_def)
  moreover have "\<not> both_overflow binary32_range True (Fin 0) (Fin 1)"
    by (simp add: both_overflow_def binary32_range_def)
  ultimately show ?thesis
    using proposed_not_smaller_accepts [OF rounding_binary32_range, of 0 1] by simp
qed

lemma exact_entries_agree:
  "metropolis_symmetric_acceptance_entry Fin False (jexp Fin (Fin a)) (jexp Fin (Fin b)) =
   metropolis_symmetric_acceptance_entry Fin True (Fin a) (Fin b)"
proof -
  have sq: "exp x * exp x = exp (2 * x)" for x :: real
    by (simp add: exp_double power2_eq_square)
  show ?thesis
  proof (cases "a < b")
    case True
    then show ?thesis
      by (simp add: metropolis_symmetric_acceptance_entry_def jsquare_def jeq_def sq)
  next
    case False
    then have "exp (2 * b) / exp (2 * a) = exp (2 * b - 2 * a)"
      by (simp add: exp_diff)
    with False show ?thesis
      by (simp add: metropolis_symmetric_acceptance_entry_def jsquare_def jeq_def jsub_def sq)
  qed
qed

text \<open>
  Claim C3 says that for \<open>a \<ge> b\<close> both representations return 1. At \<open>a = 1\<close>, \<open>b = 0\<close>
  both return \<open>exp (- 2)\<close> in exact arithmetic, which is not 1: the move goes to a smaller
  probability.
\<close>

theorem reversed_order_counterexample:
  "(1::real) \<ge> 0 \<and>
   metropolis_symmetric_acceptance Fin [Fin 1] [Fin 0] True = Inr [Fin (exp (- 2))] \<and>
   metropolis_symmetric_acceptance Fin [jexp Fin (Fin 1)] [jexp Fin (Fin 0)] False =
     Inr [Fin (exp (- 2))] \<and>
   Fin (exp (- 2)) \<noteq> Fin 1"
proof -
  have log_side: "metropolis_symmetric_acceptance_entry Fin True (Fin 1) (Fin 0) = Fin (exp (- 2))"
    by (simp add: metropolis_symmetric_acceptance_entry_def jsub_def)
  have raw_side: "metropolis_symmetric_acceptance_entry Fin False (jexp Fin (Fin 1)) (jexp Fin (Fin 0)) =
      Fin (exp (- 2))"
    using exact_entries_agree [of 1 0] log_side by simp
  have "exp (- 2 :: real) \<noteq> 1"
    by simp
  with log_side raw_side show ?thesis
    by (simp only: acceptance_singletons jfloat.inject) simp
qed





text \<open>
  Claim C10. The acceptance function made by
  \<open>make_position_amplitude_metropolis_symmetric_acceptance\<close> reads only the amplitude
  fields: two calls whose current amplitudes agree and whose proposed amplitudes agree
  return the same, whatever the parameters and the positions are.
\<close>

theorem acceptance_fn_reads_amplitudes_only:
  "amplitude data1 = amplitude data2 \<Longrightarrow>
   amplitude proposed1 = amplitude proposed2 \<Longrightarrow>
   make_position_amplitude_metropolis_symmetric_acceptance rnd logabs params1 data1 proposed1 =
   make_position_amplitude_metropolis_symmetric_acceptance rnd logabs params2 data2 proposed2"
  by (simp add: make_position_amplitude_metropolis_symmetric_acceptance_def)

text \<open>An instance with different parameters and different positions.\<close>

theorem acceptance_fn_reads_amplitudes_only_witness:
  "amplitude \<lparr>position = [0::real], amplitude = [Fin 1]\<rparr> =
     amplitude \<lparr>position = [7::real], amplitude = [Fin 1]\<rparr> \<and>
   amplitude \<lparr>position = [2::real], amplitude = [Fin 3]\<rparr> =
     amplitude \<lparr>position = [9::real], amplitude = [Fin 3]\<rparr> \<and>
   make_position_amplitude_metropolis_symmetric_acceptance binary32_range True (0::nat)
     \<lparr>position = [0::real], amplitude = [Fin 1]\<rparr> \<lparr>position = [2::real], amplitude = [Fin 3]\<rparr> =
   make_position_amplitude_metropolis_symmetric_acceptance binary32_range True (5::nat)
     \<lparr>position = [7::real], amplitude = [Fin 1]\<rparr> \<lparr>position = [9::real], amplitude = [Fin 3]\<rparr>"
  using acceptance_fn_reads_amplitudes_only
    [of "\<lparr>position = [0::real], amplitude = [Fin 1]\<rparr>" "\<lparr>position = [7::real], amplitude = [Fin 1]\<rparr>"
        "\<lparr>position = [2::real], amplitude = [Fin 3]\<rparr>" "\<lparr>position = [9::real], amplitude = [Fin 3]\<rparr>"
        binary32_range True "0::nat" "5::nat"]
  by simp

section \<open>Properties of the energy estimator\<close>

lemma foldl_jadd_Fin:
  "foldl (jadd Fin) (Fin a) (map Fin xs) = Fin (a + sum_list xs)"
  by (induction xs arbitrary: a) (simp_all add: add.assoc)

lemma jnp_sum_Fin: "jnp_sum Fin (map Fin xs) = Fin (sum_list xs)"
  by (simp add: jnp_sum_def foldl_jadd_Fin)

lemma jnp_mean_Fin:
  "xs \<noteq> [] \<Longrightarrow> jnp_mean Fin (map Fin xs) = Fin (sum_list xs / real (length xs))"
  by (simp add: jnp_mean_def jnp_sum_Fin)

lemma squared_deviation_Fin:
  "map (\<lambda>l. jsquare Fin (jsub Fin (Fin l) (Fin e))) ls = map Fin (map (\<lambda>l. (l - e)\<^sup>2) ls)"
  by (simp add: jsquare_def jsub_def power2_eq_square)

text \<open>
  Claim C6. On a single worker, with local energies 1, 2, 3, 4 and \<open>nchains = 4\<close>, the
  forward pass returns in exact arithmetic the energy 5/2 and the variance 5/3, which is
  the mean 5/4 of the squared deviations 9/4, 1/4, 1/4, 9/4 times 4/3.
\<close>

theorem energy_variance_example:
  "compute_energy_data Fin (\<lambda>x. x) (\<lambda>params positions. Inr [1, 2, 3, 4]) 4 params positions =
   Inr (Fin (5 / 2), Fin (5 / 3), [1, 2, 3, 4])"
  by (simp add: compute_energy_data_def jnp_mean_def jnp_sum_def jsquare_def jsub_def)

text \<open>
  Claim C1 says that a chain count of at most one raises \<open>InvalidConfiguration\<close>. With
  \<open>nchains = 1\<close> and the local energies 1, 2, 3, 4 the function returns the energy 5/2
  and an infinite variance, and no error.
\<close>

theorem nchains_one_counterexample:
  "(1::int) \<le> 1 \<and>
   compute_energy_data Fin (\<lambda>x. x) (\<lambda>params positions. Inr [1, 2, 3, 4]) 1 () () =
     Inr (Fin (5 / 2), PInf, [1, 2, 3, 4]) \<and>
   compute_energy_data Fin (\<lambda>x. x) (\<lambda>params positions. Inr [1, 2, 3, 4]) 1 () () \<noteq>
     Inl InvalidConfiguration"
  by (simp add: compute_energy_data_def jnp_mean_def jnp_sum_def jsquare_def jsub_def)

lemma mean_squared_deviation_Fin:
  assumes "les \<noteq> []"
  shows "jnp_mean Fin (map (\<lambda>l. jsquare Fin (jsub Fin (Fin l) (Fin e))) les) =
         Fin ((\<Sum>l\<leftarrow>les. (l - e)\<^sup>2) / real (length les))"
proof -
  have "map (\<lambda>l. (l - e)\<^sup>2) les \<noteq> []"
    using assms by simp
  from jnp_mean_Fin [OF this] show ?thesis
    by (simp only: squared_deviation_Fin length_map)
qed

lemma compute_energy_data_single_worker:
  assumes "local_energy_fn params positions = Inr les" and "les \<noteq> []"
  shows "compute_energy_data Fin (\<lambda>x. x) local_energy_fn nchains params positions =
     Inr (Fin (sum_list les / real (length les)),
          jdiv Fin (Fin ((\<Sum>l\<leftarrow>les. (l - sum_list les / real (length les))\<^sup>2) / real (length les)
                  * of_int nchains))
               (Fin (of_int (nchains - 1))),
          les)"
  unfolding compute_energy_data_def assms(1) Let_def sum.case
    jnp_mean_Fin [OF assms(2)] mean_squared_deviation_Fin [OF assms(2)] jmul.simps
  by (rule refl)

text \<open>
  Claim C1, amended: with \<open>nchains \<le> 1\<close> the function raises no error of its own.
  Whenever the local energy function returns, it returns an energy, a variance and the
  local energies, for every rounding. On a single worker with at least one local energy,
  in exact arithmetic, the energy is their mean, and the variance is the mean squared
  deviation times \<open>nchains / (nchains - 1)\<close> for \<open>nchains \<le> 0\<close>; for \<open>nchains = 1\<close> it is
  infinite, or \<open>NaN\<close> when the mean squared deviation is zero.
\<close>

theorem compute_energy_data_no_chain_count_check:
  assumes "local_energy_fn params positions = Inr les" and "nchains \<le> 1"
  shows "(\<exists>energy variance.
            compute_energy_data rnd pmean_if_pmap local_energy_fn nchains params positions =
            Inr (energy, variance, les)) \<and>
         (les \<noteq> [] \<longrightarrow>
            (\<exists>e msd variance.
               e = sum_list les / real (length les) \<and>
               msd = (\<Sum>l\<leftarrow>les. (l - e)\<^sup>2) / real (length les) \<and>
               compute_energy_data Fin (\<lambda>x. x) local_energy_fn nchains params positions =
                 Inr (Fin e, variance, les) \<and>
               variance =
                 (if nchains = 1 then (if msd = 0 then NaN else PInf)
                  else Fin (msd * of_int nchains / of_int (nchains - 1)))))"
proof (intro conjI impI)
  show "\<exists>energy variance.
            compute_energy_data rnd pmean_if_pmap local_energy_fn nchains params positions =
            Inr (energy, variance, les)"
    using assms(1) by (simp add: compute_energy_data_def Let_def)
next
  assume ne: "les \<noteq> []"
  define e where "e = sum_list les / real (length les)"
  define msd where "msd = (\<Sum>l\<leftarrow>les. (l - e)\<^sup>2) / real (length les)"
  have nonneg: "0 \<le> msd"
    unfolding msd_def by (intro divide_nonneg_nonneg sum_list_nonneg) auto
  have run: "compute_energy_data Fin (\<lambda>x. x) local_energy_fn nchains params positions =
     Inr (Fin e, jdiv Fin (Fin (msd * of_int nchains)) (Fin (of_int (nchains - 1))), les)"
    using compute_energy_data_single_worker
      [of local_energy_fn params positions les nchains, OF assms(1) ne]
    by (simp only: e_def msd_def)
  have "jdiv Fin (Fin (msd * of_int nchains)) (Fin (of_int (nchains - 1))) =
        (if nchains = 1 then (if msd = 0 then NaN else PInf)
         else Fin (msd * of_int nchains / of_int (nchains - 1)))"
    using nonneg by (auto simp: less_le)
  with run show "\<exists>e msd variance.
               e = sum_list les / real (length les) \<and>
               msd = (\<Sum>l\<leftarrow>les. (l - e)\<^sup>2) / real (length les) \<and>
               compute_energy_data Fin (\<lambda>x. x) local_energy_fn nchains params positions =
                 Inr (Fin e, variance, les) \<and>
               variance =
                 (if nchains = 1 then (if msd = 0 then NaN else PInf)
                  else Fin (msd * of_int nchains / of_int (nchains - 1)))"
    using e_def msd_def by simp
qed

text \<open>An instance with \<open>nchains = 0\<close>.\<close>

theorem compute_energy_data_no_chain_count_check_witness:
  "(0::int) \<le> 1 \<and>
   (\<exists>energy variance.
      compute_energy_data Fin (\<lambda>x. x) (\<lambda>params positions. Inr [1, 2, 3, 4]) 0 () () =
      Inr (energy, variance, [1, 2, 3, 4]))"
  using compute_energy_data_no_chain_count_check
    [of "\<lambda>params positions. Inr [1, 2, 3, 4]" "()" "()" "[1, 2, 3, 4]" 0 Fin "\<lambda>x. x"]
  by simp

lemma sum_list_constant:
  "\<forall>l\<in>set ls. l = c \<Longrightarrow> sum_list ls = real (length ls) * c"
  by (induction ls) (simp_all add: algebra_simps)

lemma jnp_sum_zeros:
  assumes "rnd 0 = Fin 0" and "\<forall>z\<in>set zs. z = Fin 0"
  shows "jnp_sum rnd zs = Fin 0"
proof -
  have "foldl (jadd rnd) (Fin 0) zs = Fin 0"
    using assms(2) by (induction zs) (simp_all add: assms(1))
  then show ?thesis by (simp add: jnp_sum_def)
qed

lemma jnp_dot_zero_deviation:
  assumes zero: "rnd 0 = Fin 0" and const: "\<forall>l\<in>set ls. l = c" and len: "length ts = length ls"
  shows "jnp_dot rnd (map Fin ts) (map (\<lambda>l. jsub rnd (Fin l) (Fin c)) ls) = Inr (Fin 0)"
proof -
  have "\<forall>z\<in>set (map2 (jmul rnd) (map Fin ts) (map (\<lambda>l. jsub rnd (Fin l) (Fin c)) ls)). z = Fin 0"
    using const by (auto simp: jsub_def zero zip_map_map dest!: set_zip_rightD)
  from jnp_sum_zeros [of rnd, OF zero this] len show ?thesis
    by (simp add: jnp_dot_def)
qed

lemma jvp_unfolded:
  assumes "compute_energy_data rnd pm local_energy_fn nchains params positions =
           Inr (energy, variance, les)"
  shows "compute_energy_data_jvp rnd pm J local_energy_fn nchains (params, positions) tangents =
     (case jnp_dot rnd (map Fin (snd (J (params, positions) tangents)))
             (map (\<lambda>l. jsub rnd (Fin l) energy) les) of
        Inl e \<Rightarrow> Inl e
      | Inr d \<Rightarrow> Inr ((energy, variance, les), (jmul rnd (Fin 2) d, variance, les)))"
  by (simp add: compute_energy_data_jvp_def assms case_prod_unfold split: sum.splits)

text \<open>
  Claim C7, amended. Every local energy equals the same constant \<open>E0\<close>, on a single
  worker. With a rounding, if the computed energy is \<open>E0\<close>, the differentiation rule
  returns the tangent zero for the energy, for every chain count, every parameters,
  positions and input tangents and every finite tangents of the log amplitude; in exact
  arithmetic the computed energy is always \<open>E0\<close> and the tangent always zero. The only
  other outcome is the refusal of log-amplitude tangents whose number is not the number
  of chains.
\<close>

theorem constant_local_energy_zero_tangent:
  assumes fn: "local_energy_fn params positions = Inr les" and const: "\<forall>l\<in>set les. l = E0"
  shows "(rounding rnd \<longrightarrow>
          (\<forall>aux. compute_energy_data rnd (\<lambda>x. x) local_energy_fn nchains params positions =
                   Inr (Fin E0, aux) \<longrightarrow>
             compute_energy_data_jvp rnd (\<lambda>x. x) log_psi_apply_jvp local_energy_fn nchains
                 (params, positions) tangents =
               (if length (snd (log_psi_apply_jvp (params, positions) tangents)) = length les
                then Inr ((Fin E0, aux), (Fin 0, aux)) else Inl ShapeMismatch))) \<and>
         (\<exists>out.
            compute_energy_data Fin (\<lambda>x. x) local_energy_fn nchains params positions = Inr out \<and>
            compute_energy_data_jvp Fin (\<lambda>x. x) log_psi_apply_jvp local_energy_fn nchains
                (params, positions) tangents =
              (if length (snd (log_psi_apply_jvp (params, positions) tangents)) = length les
               then Inr (out, (Fin 0, snd out)) else Inl ShapeMismatch))"
proof (intro conjI impI allI)
  fix aux
  assume r: "rounding rnd"
    and run: "compute_energy_data rnd (\<lambda>x. x) local_energy_fn nchains params positions =
              Inr (Fin E0, aux)"
  have zero: "rnd 0 = Fin 0" using r by (simp add: rounding_def)
  obtain variance where aux: "aux = (variance, les)"
    using run fn by (auto simp: compute_energy_data_def Let_def)
  let ?ts = "snd (log_psi_apply_jvp (params, positions) tangents)"
  have dot: "jnp_dot rnd (map Fin ?ts) (map (\<lambda>l. jsub rnd (Fin l) (Fin E0)) les) =
        (if length ?ts = length les then Inr (Fin 0) else Inl ShapeMismatch)"
    using jnp_dot_zero_deviation [of rnd les E0, OF zero const] by (simp add: jnp_dot_def)
  show "compute_energy_data_jvp rnd (\<lambda>x. x) log_psi_apply_jvp local_energy_fn nchains
          (params, positions) tangents =
        (if length ?ts = length les
         then Inr ((Fin E0, aux), (Fin 0, aux)) else Inl ShapeMismatch)"
    using run by (simp add: aux jvp_unfolded dot zero)
next
  let ?ts = "snd (log_psi_apply_jvp (params, positions) tangents)"
  obtain energy variance where
    run: "compute_energy_data Fin (\<lambda>x. x) local_energy_fn nchains params positions =
          Inr (energy, variance, les)"
    and energy: "energy = jnp_mean Fin (map Fin les)"
    using fn by (simp add: compute_energy_data_def Let_def)
  have dot: "jnp_dot Fin (map Fin ?ts) (map (\<lambda>l. jsub Fin (Fin l) energy) les) =
        (if length ?ts = length les then Inr (Fin 0) else Inl ShapeMismatch)"
  proof (cases "les = []")
    case True
    then show ?thesis
      by (simp add: jnp_dot_def jnp_sum_def)
  next
    case False
    then have "energy = Fin E0"
      using const by (simp add: energy jnp_mean_Fin sum_list_constant)
    with jnp_dot_zero_deviation [of Fin les E0, OF refl const] show ?thesis
      by (simp add: jnp_dot_def)
  qed
  show "\<exists>out.
      compute_energy_data Fin (\<lambda>x. x) local_energy_fn nchains params positions = Inr out \<and>
      compute_energy_data_jvp Fin (\<lambda>x. x) log_psi_apply_jvp local_energy_fn nchains
          (params, positions) tangents =
        (if length ?ts = length les
         then Inr (out, (Fin 0, snd out)) else Inl ShapeMismatch)"
    using run by (simp add: jvp_unfolded dot)
qed

text \<open>An instance in the range of the 32-bit format, with two chains of local energy 7.\<close>

theorem constant_local_energy_zero_tangent_witness:
  "compute_energy_data binary32_range (\<lambda>x. x) (\<lambda>params positions. Inr [7, 7]) 2 () () =
     Inr (Fin 7, Fin 0, [7, 7]) \<and>
   compute_energy_data_jvp binary32_range (\<lambda>x. x) (\<lambda>primals tangents. ([0, 0], [1, - 2]))
       (\<lambda>params positions. Inr [7, 7]) 2 ((), ()) ((), ()) =
     Inr ((Fin 7, Fin 0, [7, 7]), (Fin 0, Fin 0, [7, 7]))"
proof -
  have run: "compute_energy_data binary32_range (\<lambda>x. x) (\<lambda>params positions. Inr [7, 7]) 2 () () =
        Inr (Fin 7, Fin 0, [7, 7])"
    by (simp add: compute_energy_data_def jnp_mean_def jnp_sum_def jsquare_def jsub_def
        binary32_range_def)
  from constant_local_energy_zero_tangent
    [of "\<lambda>params positions. Inr [7, 7]" "()" "()" "[7, 7]" 7 binary32_range 2
        "\<lambda>primals tangents. ([0, 0], [1, - 2])" "((), ())"]
    rounding_binary32_range run
  show ?thesis
    by simp
qed

text \<open>
  Claim C7 says that the tangent is zero for every constant local energy. In the range of
  the 32-bit format, with two chains of local energy \<open>2^127\<close> the sum of the local
  energies overflows: the computed energy is infinite, every deviation is infinite, and
  with the log-amplitude tangents 1 and 1 the tangent of the energy is infinite.
\<close>

theorem overflowing_mean_counterexample:
  "compute_energy_data_jvp binary32_range (\<lambda>x. x) (\<lambda>primals tangents. ([0, 0], [1, 1]))
       (\<lambda>params positions. Inr [2 ^ 127, 2 ^ 127]) 2 ((), ()) ((), ()) =
     Inr ((PInf, PInf, [2 ^ 127, 2 ^ 127]), (NInf, PInf, [2 ^ 127, 2 ^ 127]))"
  by (simp add: compute_energy_data_jvp_def compute_energy_data_def jnp_mean_def jnp_sum_def
      jnp_dot_def jsquare_def jsub_def binary32_range_def)

section \<open>Properties of the Metropolis step\<close>

lemma jnp_mean_unit_interval:
  assumes "ps \<noteq> []" and "\<forall>p\<in>set ps. \<exists>v. p = Fin v \<and> 0 \<le> v \<and> v \<le> 1"
  shows "\<exists>m. jnp_mean Fin ps = Fin m \<and> 0 \<le> m \<and> m \<le> 1"
proof -
  from assms(2) obtain vs where ps: "ps = map Fin vs" and range: "\<forall>v\<in>set vs. 0 \<le> v \<and> v \<le> 1"
  proof (induction ps arbitrary: thesis)
    case Nil
    then show ?case by simp
  next
    case (Cons p ps)
    from Cons.prems(2) obtain v where "p = Fin v" "0 \<le> v" "v \<le> 1" by auto
    moreover obtain vs where "ps = map Fin vs" "\<forall>v\<in>set vs. 0 \<le> v \<and> v \<le> 1"
      using Cons.IH Cons.prems(2) by auto
    ultimately show ?case
      using Cons.prems(1) [of "v # vs"] by simp
  qed
  have ne: "vs \<noteq> []" using assms(1) ps by simp
  have lower: "0 \<le> sum_list vs"
    using range by (intro sum_list_nonneg) auto
  have upper: "sum_list vs \<le> real (length vs)"
    using range by (induction vs) auto
  have "jnp_mean Fin ps = Fin (sum_list vs / real (length vs))"
    using ne by (simp add: ps jnp_mean_Fin)
  moreover have "0 \<le> sum_list vs / real (length vs)"
    using lower by simp
  moreover have "sum_list vs / real (length vs) \<le> 1"
    using upper ne by (simp add: divide_le_eq_1)
  ultimately show ?thesis by blast
qed

text \<open>
  Claim C9, amended: when the strategies return and every acceptance probability is a
  number between 0 and 1, the first component of the step's result is the mean of the
  very array that was compared with the uniform sample to make the mask handed to the
  update; if that array has at least one entry, the mean is a number between 0 and 1.
  The arithmetic of the mean is exact here.
\<close>

theorem step_reports_mean_of_masking_array:
  assumes "random_split key = (key1, subkey)"
    and "proposal_fn params data key1 = Inr (proposed_data, key2)"
    and "acceptance_fn params data proposed_data = Inr accept_prob"
    and "update_data_fn data proposed_data
           (map2 (\<lambda>u p. jless (Fin u) p)
              (random_uniform draw subkey (length accept_prob)) accept_prob) = Inr new_data"
    and "\<forall>p\<in>set accept_prob. \<exists>v. p = Fin v \<and> 0 \<le> v \<and> v \<le> 1"
  shows "make_metropolis_step Fin random_split draw proposal_fn acceptance_fn update_data_fn
           data params key = Inr (jnp_mean Fin accept_prob, new_data, key2) \<and>
         (accept_prob \<noteq> [] \<longrightarrow> (\<exists>m. jnp_mean Fin accept_prob = Fin m \<and> 0 \<le> m \<and> m \<le> 1))"
proof (intro conjI impI)
  show "make_metropolis_step Fin random_split draw proposal_fn acceptance_fn update_data_fn
          data params key = Inr (jnp_mean Fin accept_prob, new_data, key2)"
    using assms(1-4) by (simp add: make_metropolis_step_def)
next
  assume "accept_prob \<noteq> []"
  then show "\<exists>m. jnp_mean Fin accept_prob = Fin m \<and> 0 \<le> m \<and> m \<le> 1"
    using assms(5) by (rule jnp_mean_unit_interval)
qed

text \<open>
  Claim C9 says that the first component is between 0 and 1 for every acceptance function
  with all entries between 0 and 1. For an acceptance function that returns the empty
  array (no chains) the first component is the mean of no numbers, \<open>NaN\<close>.
\<close>

theorem empty_chain_array_counterexample:
  "list_all (\<lambda>p. \<exists>v. p = Fin v \<and> 0 \<le> v \<and> v \<le> 1) [] \<and>
   make_metropolis_step Fin (\<lambda>k. (k, k)) (\<lambda>k j. 0) (\<lambda>p d k. Inr (d, k)) (\<lambda>p d d'. Inr [])
     (\<lambda>d d' mask. Inr d) () () (0::nat) = Inr (NaN, (), 0)"
  by (simp add: make_metropolis_step_def jnp_mean_def jnp_sum_def random_uniform_def)

text \<open>An instance with two chains, of which the first moves.\<close>

theorem step_reports_mean_of_masking_array_witness:
  "make_metropolis_step Fin (\<lambda>k. (k + 1, k + 2)) (\<lambda>k j. 1 / 2) (\<lambda>p d k. Inr (d + 1, k + 2))
     (\<lambda>p d d'. Inr [Fin 1, Fin 0])
     (\<lambda>d d' mask. Inr (if mask = [True, False] then d' else d)) (10::nat) () (0::nat) =
   Inr (Fin (1 / 2), 11, 3)"
proof -
  have mean: "jnp_mean Fin [Fin 1, Fin 0] = Fin (1 / 2)"
    by (simp add: jnp_mean_def jnp_sum_def)
  have "make_metropolis_step Fin (\<lambda>k. (k + 1, k + 2)) (\<lambda>k j. 1 / 2)
          (\<lambda>p d k. Inr (d + 1, k + 2)) (\<lambda>p d d'. Inr [Fin 1, Fin 0])
          (\<lambda>d d' mask. Inr (if mask = [True, False] then d' else d)) (10::nat) () (0::nat) =
          Inr (jnp_mean Fin [Fin 1, Fin 0], 11, 3) \<and>
        ([Fin 1, Fin 0] \<noteq> [] \<longrightarrow>
           (\<exists>m. jnp_mean Fin [Fin 1, Fin 0] = Fin m \<and> 0 \<le> m \<and> m \<le> 1))"
    by (rule step_reports_mean_of_masking_array
          [where ?key1.0 = "1::nat" and subkey = "2::nat" and proposed_data = "11::nat"])
      (simp_all add: random_uniform_def eval_nat_numeral)
  with mean show ?thesis
    by simp
qed


section \<open>Properties of the Laplacian evaluator\<close>

lemma eye_row:
  "i < n \<Longrightarrow> jnp_index (eye n) i = Inr (map (\<lambda>j. if i = j then 1 else 0) [0..<n])"
  by (simp add: jnp_index_def eye_def)

lemma gaussian_along_entry:
  assumes "i < length (elems x)" and "length (elems v) = length (elems x)"
  shows "elems (gaussian_grad_log_psi params (along x v t)) ! i =
         - (elems x ! i + t * elems v ! i)"
  using assms by (simp add: gaussian_grad_log_psi_def along_def)

lemma gaussian_jvp_values:
  assumes jvp: "is_jvp_of gaussian_grad_log_psi J"
    and len: "length (elems v) = length (elems x)"
    and i: "i < length (elems x)"
  shows "elems (fst (J params x v)) ! i = - (elems x ! i)"
    and "length (elems (fst (J params x v))) = length (elems x)"
    and "length (elems (snd (J params x v))) = length (elems x)"
    and "elems (snd (J params x v)) ! i = - (elems v ! i)"
proof -
  from jvp len have
    val: "fst (J params x v) = gaussian_grad_log_psi params x" and
    size: "length (elems (snd (J params x v))) = length (elems (gaussian_grad_log_psi params x))" and
    der: "\<forall>i < length (elems (gaussian_grad_log_psi params x)).
           ((\<lambda>t. elems (gaussian_grad_log_psi params (along x v t)) ! i)
              has_real_derivative elems (snd (J params x v)) ! i) (at 0)"
    unfolding is_jvp_of_def by blast+
  have out_len: "length (elems (gaussian_grad_log_psi params x)) = length (elems x)"
    by (simp add: gaussian_grad_log_psi_def)
  show "elems (fst (J params x v)) ! i = - (elems x ! i)"
    using i by (simp add: val gaussian_grad_log_psi_def)
  show "length (elems (fst (J params x v))) = length (elems x)"
    by (simp add: val out_len)
  show "length (elems (snd (J params x v))) = length (elems x)"
    by (simp add: size out_len)
  have line: "(\<lambda>t. elems (gaussian_grad_log_psi params (along x v t)) ! i) =
        (\<lambda>t. - (elems x ! i + t * elems v ! i))"
    using gaussian_along_entry [OF i len] by (intro ext) simp
  have "((\<lambda>t. - (elems x ! i + t * elems v ! i)) has_real_derivative - (elems v ! i)) (at 0)"
    by (auto intro!: derivative_eq_intros)
  moreover have "((\<lambda>t. elems (gaussian_grad_log_psi params (along x v t)) ! i)
      has_real_derivative elems (snd (J params x v)) ! i) (at 0)"
    using der i out_len by simp
  then have "((\<lambda>t. - (elems x ! i + t * elems v ! i))
      has_real_derivative elems (snd (J params x v)) ! i) (at 0)"
    by (simp only: line)
  ultimately show "elems (snd (J params x v)) ! i = - (elems v ! i)"
    by (rule DERIV_unique [symmetric])
qed

lemma step_fn_gaussian:
  assumes jvp: "is_jvp_of gaussian_grad_log_psi J" and i: "i < length (elems (x::ndarray))"
  shows "step_fn rnd J params (shape x) (elems x) (eye (length (elems x))) (i, acc) =
         Inr (i + 1, jadd rnd (jadd rnd acc (rnd (elems x ! i * elems x ! i))) (Fin (- 1)))"
proof -
  let ?n = "length (elems x)"
  let ?row = "map (\<lambda>j. if i = j then 1 else 0) [0..<?n] :: real list"
  let ?v = "reshape ?row (shape x)"
  have x: "reshape (elems x) (shape x) = x"
    by (simp add: reshape_def)
  have len: "length (elems ?v) = length (elems x)"
    by (simp add: reshape_def)
  have vi: "elems ?v ! i = 1"
    using i by (simp add: reshape_def)
  note vals = gaussian_jvp_values [OF jvp len i, of params]
  have flat: "flattened_grad_log_psi_of_flat_x_jvp J params (shape x) (elems x) ?row =
        (elems (fst (J params x ?v)), elems (snd (J params x ?v)))"
    by (simp add: flattened_grad_log_psi_of_flat_x_jvp_def x case_prod_unfold Let_def)
  have p: "jnp_index (elems (fst (J params x ?v))) i = Inr (- (elems x ! i))"
    using vals(1,2) i by (auto simp: jnp_index_def)
  have t: "jnp_index (elems (snd (J params x ?v))) i = Inr (- 1)"
    using vals(3,4) i vi by (auto simp: jnp_index_def)
  show ?thesis
    by (simp add: step_fn_def eye_row [OF i] flat p t jsquare_def)
qed

lemma scan_loop_gaussian:
  assumes jvp: "is_jvp_of gaussian_grad_log_psi J"
  shows "i + k = length (elems (x::ndarray)) \<Longrightarrow> exact_run rnd acc (drop i (elems x)) \<Longrightarrow>
         scan_loop (step_fn rnd J params (shape x) (elems x) (eye (length (elems x))))
           (i, Fin acc) k =
         Inr (length (elems x),
              Fin (acc + (\<Sum>j = i..<length (elems x). (elems x ! j)\<^sup>2 - 1)))"
proof (induction k arbitrary: i acc)
  case 0
  then show ?case by simp
next
  case (Suc k)
  then have i: "i < length (elems x)" and rest: "Suc i + k = length (elems x)"
    by simp_all
  let ?a = "elems x ! i"
  have "drop i (elems x) = ?a # drop (Suc i) (elems x)"
    using i by (simp add: Cons_nth_drop_Suc)
  with Suc.prems(2) have
    sq: "rnd (?a * ?a) = Fin (?a * ?a)" and
    s1: "rnd (acc + ?a * ?a) = Fin (acc + ?a * ?a)" and
    s2: "rnd (acc + ?a * ?a + - 1) = Fin (acc + ?a * ?a - 1)" and
    tail: "exact_run rnd (acc + ?a * ?a - 1) (drop (Suc i) (elems x))"
    by simp_all
  have step: "step_fn rnd J params (shape x) (elems x) (eye (length (elems x))) (i, Fin acc) =
        Inr (Suc i, Fin (acc + ?a * ?a - 1))"
    unfolding step_fn_gaussian [OF jvp i] sq jadd.simps s1 s2 by simp
  have "(\<Sum>j = i..<length (elems x). (elems x ! j)\<^sup>2 - 1) =
        ?a * ?a - 1 + (\<Sum>j = Suc i..<length (elems x). (elems x ! j)\<^sup>2 - 1)"
    using i by (simp add: sum.atLeast_Suc_lessThan power2_eq_square)
  with Suc.IH [OF rest tail] step show ?case
    by (simp add: add.assoc)
qed

lemma sum_squares_minus_one:
  "(\<Sum>j = 0..<length xs. (xs ! j)\<^sup>2 - 1) = (\<Sum>a\<leftarrow>xs. a\<^sup>2) - real (length xs)"
proof -
  have "(\<Sum>j = 0..<length xs. (xs ! j)\<^sup>2 - 1) = (\<Sum>j = 0..<length xs. (xs ! j)\<^sup>2) - real (length xs)"
    by (simp add: sum_subtractf)
  also have "(\<Sum>j = 0..<length xs. (xs ! j)\<^sup>2) = (\<Sum>a\<leftarrow>xs. a\<^sup>2)"
    using sum_list_sum_nth [of "map (\<lambda>a. a\<^sup>2) xs"] by simp
  finally show ?thesis .
qed

lemma exact_run_Fin: "exact_run Fin acc xs"
  by (induction xs arbitrary: acc) simp_all

lemma laplacian_exact_run:
  assumes jvp: "is_jvp_of gaussian_grad_log_psi J" and ne: "elems (x::ndarray) \<noteq> []"
    and exact: "exact_run rnd 0 (elems x)"
  shows "laplacian_psi_over_psi rnd J params x =
         Inr (Fin ((\<Sum>a\<leftarrow>elems x. a\<^sup>2) - real (length (elems x))))"
proof -
  let ?step = "step_fn rnd J params (shape x) (elems x) (eye (length (elems x)))"
  have "0 < length (elems x)" using ne by simp
  from step_fn_gaussian [OF jvp this] have staged: "\<exists>c. ?step (0, Fin 0) = Inr c"
    by simp
  have "scan_loop ?step (0, Fin 0) (length (elems x)) =
        Inr (length (elems x), Fin ((\<Sum>a\<leftarrow>elems x. a\<^sup>2) - real (length (elems x))))"
    using scan_loop_gaussian [OF jvp, of 0 "length (elems x)" x rnd 0 params] exact
    by (simp add: sum_squares_minus_one)
  with staged show ?thesis
    by (auto simp: laplacian_psi_over_psi_def scan_def Let_def)
qed

text \<open>
  Claim C8, amended. The gradient function is \<open>grad_log_psi params x = - x\<close>, given
  through any forward-mode derivative of it, and \<open>x\<close> has at least one entry. With a
  rounding under which the evaluation at \<open>x\<close> rounds nothing, \<open>laplacian_psi_over_psi\<close>
  returns \<open>|x|\<^sup>2 - n\<close>, where \<open>n\<close> is the number of entries of \<open>x\<close>; in exact arithmetic
  it does so at every such \<open>x\<close>.
\<close>

theorem laplacian_of_gaussian:
  assumes "is_jvp_of gaussian_grad_log_psi grad_log_psi_jvp" and "elems x \<noteq> []"
  shows "(exact_run rnd 0 (elems x) \<longrightarrow>
            laplacian_psi_over_psi rnd grad_log_psi_jvp params x =
            Inr (Fin ((\<Sum>a\<leftarrow>elems x. a\<^sup>2) - real (length (elems x))))) \<and>
         laplacian_psi_over_psi Fin grad_log_psi_jvp params x =
           Inr (Fin ((\<Sum>a\<leftarrow>elems x. a\<^sup>2) - real (length (elems x))))"
  using laplacian_exact_run [OF assms] laplacian_exact_run [OF assms exact_run_Fin]
  by blast

lemma gaussian_jvp_exists:
  "is_jvp_of gaussian_grad_log_psi
     (\<lambda>params x v. (gaussian_grad_log_psi params x, gaussian_grad_log_psi params v))"
  unfolding is_jvp_of_def
proof (intro allI impI conjI)
  fix params :: 'a and x v :: ndarray and i
  assume len: "length (elems v) = length (elems x)"
    and "i < length (elems (gaussian_grad_log_psi params x))"
  then have i: "i < length (elems x)"
    by (simp add: gaussian_grad_log_psi_def)
  have line: "(\<lambda>t. elems (gaussian_grad_log_psi params (along x v t)) ! i) =
        (\<lambda>t. - (elems x ! i + t * elems v ! i))"
    using gaussian_along_entry [OF i len] by (intro ext) simp
  have "((\<lambda>t. - (elems x ! i + t * elems v ! i)) has_real_derivative - (elems v ! i)) (at 0)"
    by (auto intro!: derivative_eq_intros)
  then have "((\<lambda>t. elems (gaussian_grad_log_psi params (along x v t)) ! i)
     has_real_derivative - (elems v ! i)) (at 0)"
    by (simp only: line)
  moreover have "elems (snd (gaussian_grad_log_psi params x, gaussian_grad_log_psi params v)) ! i =
      - (elems v ! i)"
    using i len by (simp add: gaussian_grad_log_psi_def)
  ultimately show "((\<lambda>t. elems (gaussian_grad_log_psi params (along x v t)) ! i)
     has_real_derivative
       elems (snd (gaussian_grad_log_psi params x, gaussian_grad_log_psi params v)) ! i) (at 0)"
    by (simp only:)
qed (simp_all add: gaussian_grad_log_psi_def)

text \<open>An instance at \<open>x = (1, 2)\<close> in the range of the 32-bit format, with the derivative
  that maps a direction to its negative.\<close>

theorem laplacian_of_gaussian_witness:
  "exact_run binary32_range 0 [1, 2] \<and>
   laplacian_psi_over_psi binary32_range
     (\<lambda>params x v. (gaussian_grad_log_psi params x, gaussian_grad_log_psi params v))
     () \<lparr>shape = [2], elems = [1, 2]\<rparr> = Inr (Fin 3)"
proof -
  have exact: "exact_run binary32_range 0 [1, 2]"
    by (simp add: binary32_range_def)
  with laplacian_of_gaussian
    [OF gaussian_jvp_exists, of "\<lparr>shape = [2], elems = [1, 2]\<rparr>" binary32_range "()"]
  show ?thesis by simp
qed

text \<open>
  Claim C8 says that the result is \<open>|x|\<^sup>2 - n\<close> at every \<open>x\<close>. At an \<open>x\<close> with no entries
  that would be 0, but the staging of the scan indexes the identity matrix of size
  zero, and the call ends with \<open>IndexError\<close>.
\<close>

theorem no_entries_counterexample:
  "laplacian_psi_over_psi Fin
     (\<lambda>params x v. (gaussian_grad_log_psi params x, gaussian_grad_log_psi params v))
     () \<lparr>shape = [0], elems = []\<rparr> = Inl IndexError"
  by (simp add: laplacian_psi_over_psi_def scan_def step_fn_def jnp_index_def eye_def)

end
